theory Spec2Isabelle
  imports Main "HOL-Library.Multiset"
begin

section \<open>The provider configuration (provider.go)\<close>

text \<open>
  \<^verbatim>\<open>smtp.Auth\<close> is an interface of the Go standard library; the provider builds it
  with \<^verbatim>\<open>smtp.CRAMMD5Auth(username, secret)\<close> or
  \<^verbatim>\<open>smtp.PlainAuth(identity, username, password, host)\<close>, and leaves it \<^verbatim>\<open>nil\<close>
  otherwise. The strategy is kept as the constructor call that made it.
\<close>

datatype auth =
    NoAuth
  | CRAMMD5Auth string string
  | PlainAuth string string string string

text \<open>The \<^verbatim>\<open>client\<close> struct of provider.go.\<close>

record client =
  c_auth :: auth
  c_host :: string
  c_username :: string
  c_from :: string
  c_port :: int

text \<open>
  The blocks \<^verbatim>\<open>cram_md5_auth\<close> and \<^verbatim>\<open>plain_auth\<close> of the provider schema: lists
  (\<^verbatim>\<open>schema.TypeList\<close>) of maps with string fields.
\<close>

record cram_settings =
  secret :: string

record plain_settings =
  password :: string
  identity :: string

text \<open>
  What \<^verbatim>\<open>configureClient\<close> reads from its \<^verbatim>\<open>*schema.ResourceData\<close>: the four
  scalar attributes through \<^verbatim>\<open>r.Get\<close>, and for each authentication block the pair
  \<^verbatim>\<open>(value, ok)\<close> that \<^verbatim>\<open>r.GetOk\<close> returns. A scheme is present when its
  \<^verbatim>\<open>ok\<close> is true.
\<close>

record provider_data =
  r_host :: string
  r_port :: int
  r_username :: string
  r_from :: string
  r_cram_md5_auth :: "cram_settings list \<times> bool"
  r_plain_auth :: "plain_settings list \<times> bool"

text \<open>
  \<^verbatim>\<open>configureClient\<close> returns \<^verbatim>\<open>(client, nil)\<close>, here \<open>Inr client\<close>, or
  \<^verbatim>\<open>(nil, diag.Errorf(msg))\<close>, here \<open>Inl msg\<close>.
\<close>

definition configureClient :: "provider_data \<Rightarrow> string + client" where
  "configureClient r =
     (let client = \<lparr>c_auth = NoAuth, c_host = r_host r, c_username = r_username r,
                     c_from = r_from r, c_port = r_port r\<rparr>
      in case r_cram_md5_auth r of (cramSettings, ok) \<Rightarrow>
        if ok then
          (if length cramSettings > 0
           then Inr (client\<lparr>c_auth := CRAMMD5Auth (c_username client)
                                        (secret (cramSettings ! 0))\<rparr>)
           else Inr client)
        else case r_plain_auth r of (plainSettings, ok) \<Rightarrow>
          if ok then
            (if length plainSettings > 0
             then Inr (client\<lparr>c_auth := PlainAuth (identity (plainSettings ! 0))
                                          (c_username client)
                                          (password (plainSettings ! 0))
                                          (c_host client)\<rparr>)
             else Inr client)
          else Inl ''no authentication method specified'')"

section \<open>Go standard library functions used by resource_message.go\<close>

definition LF :: char where "LF = CHR 0x0A"
definition CR :: char where "CR = CHR 0x0D"

text \<open>\<^verbatim>\<open>strings.Join(elems, sep)\<close>.\<close>

fun join :: "string \<Rightarrow> string list \<Rightarrow> string" where
  "join sep [] = []"
| "join sep [x] = x"
| "join sep (x # y # ys) = x @ sep @ join sep (y # ys)"

text \<open>
  The bytes \<^verbatim>\<open>fmt.Fprintln(w, operands...)\<close> writes, for string operands: the operands
  with a space between each two of them, and a newline. \<^verbatim>\<open>fmt.Fprint\<close> of one string
  writes the string itself.
\<close>

definition Sprintln :: "string list \<Rightarrow> string" where
  "Sprintln operands = join '' '' operands @ [LF]"

text \<open>The verb \<^verbatim>\<open>%d\<close> of \<^verbatim>\<open>fmt.Sprintf\<close> on an integer.\<close>

definition digit_char :: "nat \<Rightarrow> char" where
  "digit_char n = ''0123456789'' ! n"

fun decimal :: "nat \<Rightarrow> string" where
  "decimal n =
     (if n < 10 then [digit_char n] else decimal (n div 10) @ [digit_char (n mod 10)])"

declare decimal.simps [simp del]

definition format_d :: "int \<Rightarrow> string" where
  "format_d i = (if i < 0 then CHR ''-'' # decimal (nat (- i)) else decimal (nat i))"

text \<open>The verb \<^verbatim>\<open>%x\<close> on a byte slice: two lowercase hexadecimal digits a byte.\<close>

definition hex_digit :: "nat \<Rightarrow> char" where
  "hex_digit n = ''0123456789abcdef'' ! n"

definition format_x :: "string \<Rightarrow> string" where
  "format_x bs =
     concat (map (\<lambda>b. [hex_digit ((of_char b :: nat) div 16),
                        hex_digit ((of_char b :: nat) mod 16)]) bs)"

text \<open>
  The dot-encoding writer of \<^verbatim>\<open>net/textproto\<close> (\<^verbatim>\<open>Writer.DotWriter\<close>): a state
  machine over the bytes written. \<open>dotWriteByte\<close> is one round of the loop of
  \<^verbatim>\<open>dotWriter.Write\<close>: the bytes it passes on to the underlying writer, and the next
  state. At the start of a line a leading dot is doubled; a line feed that does not
  follow a carriage return gets one.
\<close>

datatype wstate = wstateBegin | wstateBeginLine | wstateCR | wstateData

fun dotWriteByte :: "wstate \<Rightarrow> char \<Rightarrow> string \<times> wstate" where
  "dotWriteByte wstateCR c = ([c], if c = LF then wstateBeginLine else wstateData)"
| "dotWriteByte wstateData c =
     ((if c = LF then [CR] else []) @ [c],
      if c = LF then wstateBeginLine else if c = CR then wstateCR else wstateData)"
| "dotWriteByte st c =
     ((if c = CHR ''.'' then ''.'' else []) @ (if c = LF then [CR] else []) @ [c],
      if c = LF then wstateBeginLine else if c = CR then wstateCR else wstateData)"

fun dotWrite :: "wstate \<Rightarrow> string \<Rightarrow> string \<times> wstate" where
  "dotWrite st [] = ([], st)"
| "dotWrite st (c # cs) =
     (case dotWriteByte st c of (out, st') \<Rightarrow>
        case dotWrite st' cs of (outs, st'') \<Rightarrow> (out @ outs, st''))"

text \<open>\<^verbatim>\<open>dotWriter.Close\<close>: the end of the last line, if it is open, and the final dot line.\<close>

fun dotClose :: "wstate \<Rightarrow> string" where
  "dotClose wstateCR = [LF] @ [CHR ''.'', CR, LF]"
| "dotClose wstateBeginLine = [CHR ''.'', CR, LF]"
| "dotClose st = [CR] @ [LF] @ [CHR ''.'', CR, LF]"

text \<open>The dot-encoding of a whole byte sequence written to a fresh writer and closed.\<close>

definition dot_encode :: "string \<Rightarrow> string" where
  "dot_encode s = (case dotWrite wstateBegin s of (out, st) \<Rightarrow> out @ dotClose st)"

section \<open>The message resource (resource_message.go)\<close>

text \<open>
  The attributes of the \<^verbatim>\<open>smtp_message\<close> resource as \<^verbatim>\<open>resourceMessageCreate\<close> reads
  them: the strings \<^verbatim>\<open>d.Get("subject")\<close>, \<^verbatim>\<open>d.Get("body")\<close> and
  \<^verbatim>\<open>d.Get("from")\<close> (empty when unset), the lists that \<^verbatim>\<open>(*schema.Set).List()\<close>
  returns for \<^verbatim>\<open>to\<close>, \<^verbatim>\<open>cc\<close> and \<^verbatim>\<open>bcc\<close>, and the entries of the map
  \<^verbatim>\<open>d.Get("headers")\<close>.
\<close>

record message_data =
  d_subject :: string
  d_body :: string
  d_from :: string
  d_to :: "string list"
  d_cc :: "string list"
  d_bcc :: "string list"
  d_headers :: "(string \<times> string) list"

text \<open>The arguments of one call of \<^verbatim>\<open>smtp.SendMail(addr, a, from, to, msg)\<close>.\<close>

record send_mail_call =
  sm_addr :: string
  sm_auth :: auth
  sm_from :: string
  sm_to :: "string list"
  sm_msg :: string

text \<open>The writes of \<^verbatim>\<open>resourceMessageCreate\<close> whose error it checks.\<close>

datatype wstep =
  WFrom | WSubject | WTo | WCc | WHeader string | WSeparator | WBody | WClose

text \<open>
  What the function takes from its environment:
  \<^item> \<open>write_err\<close>: the error a write returns (\<open>None\<close> is \<^verbatim>\<open>nil\<close>);
  \<^item> \<open>headers_range\<close>, \<open>recipients_range\<close>: the order in which a \<^verbatim>\<open>range\<close> over
    a Go map visits its entries (the language leaves it open; each entry is visited once);
  \<^item> \<open>send_mail_err\<close>: the error \<^verbatim>\<open>smtp.SendMail\<close> returns for a call;
  \<^item> \<open>unix_nano\<close>: \<^verbatim>\<open>time.Now().UnixNano()\<close>, an \<^verbatim>\<open>int64\<close>;
  \<^item> \<open>sha256_sum\<close>: the SHA-256 digest of a byte sequence (\<^verbatim>\<open>crypto/sha256\<close>),
    32 bytes long.
\<close>

record runtime =
  write_err :: "wstep \<Rightarrow> string option"
  headers_range :: "(string \<times> string) list \<Rightarrow> (string \<times> string) list"
  recipients_range :: "string list \<Rightarrow> string list"
  send_mail_err :: "send_mail_call \<Rightarrow> string option"
  unix_nano :: int
  sha256_sum :: "string \<Rightarrow> string"

text \<open>
  The writers of lines 76 to 79: \<open>sumWriter\<close> holds the bytes the hash has absorbed,
  \<open>buffer\<close> the bytes that have reached the \<^verbatim>\<open>bytes.Buffer\<close> (the
  \<^verbatim>\<open>bufio.Writer\<close> between the two is flushed by \<^verbatim>\<open>Close\<close> and holds nothing
  back afterwards), \<open>dot\<close> the state of the dot writer.
\<close>

record writers =
  sumWriter :: string
  buffer :: string
  dot :: wstate

definition new_writers :: writers where
  "new_writers = \<lparr>sumWriter = [], buffer = [], dot = wstateBegin\<rparr>"

text \<open>
  One \<^verbatim>\<open>Write\<close> on the \<^verbatim>\<open>io.MultiWriter(sumWriter, msgWriter)\<close>: the same bytes
  go to the hash as they are and to the dot writer, which encodes them into the buffer.
\<close>

definition multi_write :: "runtime \<Rightarrow> wstep \<Rightarrow> string \<Rightarrow> writers \<Rightarrow> string + writers" where
  "multi_write rt step p w =
     (case write_err rt step of
        Some err \<Rightarrow> Inl err
      | None \<Rightarrow>
          (case dotWrite (dot w) p of (out, st) \<Rightarrow>
             Inr \<lparr>sumWriter = sumWriter w @ p, buffer = buffer w @ out, dot = st\<rparr>))"

definition msgWriter_Close :: "runtime \<Rightarrow> writers \<Rightarrow> string + writers" where
  "msgWriter_Close rt w =
     (case write_err rt WClose of
        Some err \<Rightarrow> Inl err
      | None \<Rightarrow> Inr (w\<lparr>buffer := buffer w @ dotClose (dot w)\<rparr>))"

text \<open>Lines 81 to 87: the sender written into the From header.\<close>

definition effective_from :: "client \<Rightarrow> message_data \<Rightarrow> string" where
  "effective_from client d =
     (let from = c_username client;
          from = (if c_from client \<noteq> '''' then c_from client else from);
          from = (if d_from d \<noteq> '''' then d_from d else from)
      in from)"

text \<open>Sequencing of steps that may return an error: the first error ends the run.\<close>

definition and_then :: "'e + 'a \<Rightarrow> ('a \<Rightarrow> 'e + 'b) \<Rightarrow> 'e + 'b" where
  "and_then m f = (case m of Inl e \<Rightarrow> Inl e | Inr x \<Rightarrow> f x)"

definition or_fail :: "string \<Rightarrow> string + 'a \<Rightarrow> string + 'a" where
  "or_fail msg m = (case m of Inl err \<Rightarrow> Inl (msg @ err) | Inr x \<Rightarrow> Inr x)"

text \<open>Lines 111 to 115: the loop over the extra headers, in the order of the range.\<close>

fun write_headers :: "runtime \<Rightarrow> (string \<times> string) list \<Rightarrow> writers \<Rightarrow> string + writers" where
  "write_headers rt [] w = Inr w"
| "write_headers rt ((k, v) # kvs) w =
     and_then
       (or_fail (''failed to write the '' @ k @ '' header: '')
          (multi_write rt (WHeader k) (Sprintln [k, '': '', v]) w))
       (write_headers rt kvs)"

text \<open>
  Lines 76 to 128: the composition of the message, up to and with the closing of the
  dot writer. \<open>Inl\<close> is the message of the \<^verbatim>\<open>diag.Errorf\<close> returned.
\<close>

definition compose :: "runtime \<Rightarrow> client \<Rightarrow> message_data \<Rightarrow> string + writers" where
  "compose rt client d =
     and_then (or_fail ''failed to write the From header: ''
       (multi_write rt WFrom (Sprintln [''From: '', effective_from client d]) new_writers))
     (\<lambda>w. and_then (or_fail ''failed to write the Subject header: ''
       (multi_write rt WSubject (Sprintln [''Subject: '', d_subject d]) w))
     (\<lambda>w. and_then
       (if length (d_to d) > 0
        then or_fail ''failed to write the To header: ''
               (multi_write rt WTo (Sprintln [''To: '', join '', '' (d_to d)]) w)
        else Inr w)
     (\<lambda>w. and_then
       (if length (d_cc d) > 0
        then or_fail ''failed to write the Cc header: ''
               (multi_write rt WCc (Sprintln [''Cc: '', join '', '' (d_cc d)]) w)
        else Inr w)
     (\<lambda>w. and_then (write_headers rt (headers_range rt (d_headers d)) w)
     (\<lambda>w. and_then (or_fail ''failed to write the body separator: ''
       (multi_write rt WSeparator (Sprintln []) w))
     (\<lambda>w. and_then (or_fail ''failed to write the body: ''
       (multi_write rt WBody (d_body d) w))
     (\<lambda>w. or_fail ''failed to close the message writer: '' (msgWriter_Close rt w))))))))"

text \<open>
  Lines 153 to 167. The map \<^verbatim>\<open>recipientSet\<close> is kept as the list of its keys, each
  once; \<open>set_key\<close> is \<^verbatim>\<open>recipientSet[r] = struct{}{}\<close>.
\<close>

definition set_key :: "string \<Rightarrow> string list \<Rightarrow> string list" where
  "set_key r recipientSet = (if r \<in> set recipientSet then recipientSet else recipientSet @ [r])"

definition uniqueRecipients :: "runtime \<Rightarrow> string list list \<Rightarrow> string list" where
  "uniqueRecipients rt recipients =
     (let recipientSet = fold (\<lambda>recipient m. fold set_key recipient m) recipients []
      in fold (\<lambda>r out. out @ [r]) (recipients_range rt recipientSet) [])"

text \<open>
  What a run of \<^verbatim>\<open>resourceMessageCreate\<close> leaves behind: the diagnostics returned
  (\<open>None\<close> is \<^verbatim>\<open>nil\<close>), the call of \<^verbatim>\<open>smtp.SendMail\<close> if one was made, and the
  identity given to \<^verbatim>\<open>d.SetId\<close> if it was called.
\<close>

record outcome =
  diags :: "string option"
  sent :: "send_mail_call option"
  rid :: "string option"

definition resourceMessageCreate :: "runtime \<Rightarrow> client \<Rightarrow> message_data \<Rightarrow> outcome" where
  "resourceMessageCreate rt client d =
     (case compose rt client d of
        Inl msg \<Rightarrow> \<lparr>diags = Some msg, sent = None, rid = None\<rparr>
      | Inr w \<Rightarrow>
          (let host = c_host client @ '':'' @ format_d (c_port client);
               recipients = uniqueRecipients rt [d_to d, d_cc d, d_bcc d];
               call = \<lparr>sm_addr = host, sm_auth = c_auth client, sm_from = c_username client,
                        sm_to = recipients, sm_msg = buffer w\<rparr>
           in case send_mail_err rt call of
                Some err \<Rightarrow>
                  \<lparr>diags = Some (''Error sending message as '' @ c_username client @ '': '' @ err),
                   sent = Some call, rid = None\<rparr>
              | None \<Rightarrow>
                  \<lparr>diags = None, sent = Some call,
                   rid = Some (format_d (unix_nano rt) @ ''-'' @
                               format_x (sha256_sum rt (sumWriter w)))\<rparr>))"

text \<open>
  The pattern \<^verbatim>\<open>^\d+-[0-9a-f]{64}$\<close>: one or more decimal digits, a hyphen, and 64
  lowercase hexadecimal digits to the end.
\<close>

definition is_digit :: "char \<Rightarrow> bool" where
  "is_digit c = (c \<in> set ''0123456789'')"

definition is_lower_hex :: "char \<Rightarrow> bool" where
  "is_lower_hex c = (c \<in> set ''0123456789abcdef'')"

definition id_pattern :: "string \<Rightarrow> bool" where
  "id_pattern s =
     (takeWhile is_digit s \<noteq> [] \<and>
      (case dropWhile is_digit s of
         [] \<Rightarrow> False
       | c # hs \<Rightarrow> c = CHR ''-'' \<and> length hs = 64 \<and> list_all is_lower_hex hs))"

section \<open>The composition as a list of writes\<close>

text \<open>
  The prefix of the diagnostic that \<^verbatim>\<open>resourceMessageCreate\<close> returns when a write
  fails, as written at each \<^verbatim>\<open>diag.Errorf\<close> of lines 89 to 128.
\<close>

fun failure_prefix :: "wstep \<Rightarrow> string" where
  "failure_prefix WFrom = ''failed to write the From header: ''"
| "failure_prefix WSubject = ''failed to write the Subject header: ''"
| "failure_prefix WTo = ''failed to write the To header: ''"
| "failure_prefix WCc = ''failed to write the Cc header: ''"
| "failure_prefix (WHeader k) = ''failed to write the '' @ k @ '' header: ''"
| "failure_prefix WSeparator = ''failed to write the body separator: ''"
| "failure_prefix WBody = ''failed to write the body: ''"
| "failure_prefix WClose = ''failed to close the message writer: ''"

text \<open>A run of writes on the multi-writer, each checked as the source checks it.\<close>

fun run_writes :: "runtime \<Rightarrow> (wstep \<times> string) list \<Rightarrow> writers \<Rightarrow> string + writers" where
  "run_writes rt [] w = Inr w"
| "run_writes rt ((s, p) # xs) w =
     and_then (or_fail (failure_prefix s) (multi_write rt s p w)) (run_writes rt xs)"

text \<open>The writes of one composition, in the order of the source, with their bytes.\<close>

definition header_writes :: "(string \<times> string) list \<Rightarrow> (wstep \<times> string) list" where
  "header_writes kvs = map (\<lambda>(k, v). (WHeader k, Sprintln [k, '': '', v])) kvs"

definition plan :: "runtime \<Rightarrow> client \<Rightarrow> message_data \<Rightarrow> (wstep \<times> string) list" where
  "plan rt client d =
     [(WFrom, Sprintln [''From: '', effective_from client d]),
      (WSubject, Sprintln [''Subject: '', d_subject d])]
     @ (if length (d_to d) > 0 then [(WTo, Sprintln [''To: '', join '', '' (d_to d)])] else [])
     @ (if length (d_cc d) > 0 then [(WCc, Sprintln [''Cc: '', join '', '' (d_cc d)])] else [])
     @ header_writes (headers_range rt (d_headers d))
     @ [(WSeparator, Sprintln []), (WBody, d_body d)]"

text \<open>The steps of a composition that runs to its end: every write, then the close.\<close>

definition composition_writes :: "runtime \<Rightarrow> message_data \<Rightarrow> wstep list" where
  "composition_writes rt d =
     [WFrom, WSubject]
     @ (if length (d_to d) > 0 then [WTo] else [])
     @ (if length (d_cc d) > 0 then [WCc] else [])
     @ map (\<lambda>kv. WHeader (fst kv)) (headers_range rt (d_headers d))
     @ [WSeparator, WBody, WClose]"

definition write_ok :: "runtime \<Rightarrow> wstep \<Rightarrow> bool" where
  "write_ok rt s = (write_err rt s = None)"

text \<open>The bytes a composition writes to the multi-writer when no write fails.\<close>

definition document :: "runtime \<Rightarrow> client \<Rightarrow> message_data \<Rightarrow> string" where
  "document rt client d = concat (map snd (plan rt client d))"

text \<open>The lines of a byte sequence: the pieces between its line feeds.\<close>

fun split_lines :: "string \<Rightarrow> string list" where
  "split_lines [] = [[]]"
| "split_lines (c # cs) =
     (if c = LF then [] # split_lines cs
      else case split_lines cs of [] \<Rightarrow> [[c]] | l # ls \<Rightarrow> (c # l) # ls)"

section \<open>Example inputs\<close>

text \<open>
  An environment in which every write succeeds, a range visits the entries in the order
  of the list that holds them, the send succeeds, and the clock reads 1700000000000000000
  nanoseconds. Its digest is a stand-in of the right length: 32 bytes, the first 32 bytes
  of the input padded with zeros.
\<close>

definition example_runtime :: runtime where
  "example_runtime =
     \<lparr>write_err = (\<lambda>s. None),
      headers_range = (\<lambda>kvs. kvs),
      recipients_range = (\<lambda>ks. ks),
      send_mail_err = (\<lambda>call. None),
      unix_nano = 1700000000000000000,
      sha256_sum = (\<lambda>bs. take 32 (bs @ replicate 32 (CHR 0x00)))\<rparr>"

definition example_client :: client where
  "example_client =
     \<lparr>c_auth = PlainAuth '''' ''test'' ''test'' ''localhost'', c_host = ''localhost'',
      c_username = ''test'', c_from = '''', c_port = 587\<rparr>"

definition example_message :: message_data where
  "example_message =
     \<lparr>d_subject = ''Hi'', d_body = ''Boom'', d_from = '''',
      d_to = [''a@x.com''], d_cc = [''b@x.com''], d_bcc = [''c@x.com'', ''a@x.com''],
      d_headers = [(''X-Test'', ''1'')]\<rparr>"

section \<open>Properties of configureClient\<close>

text \<open>
  C3 (as amended): \<^verbatim>\<open>configureClient\<close> fails exactly when neither authentication scheme
  is present, and then with the message "no authentication method specified" and no
  client. A configuration with both schemes present does not fail here.
\<close>

theorem configureClient_fails_iff_no_scheme:
  "(\<exists>msg. configureClient r = Inl msg) =
     (\<not> snd (r_cram_md5_auth r) \<and> \<not> snd (r_plain_auth r))
   \<and> (configureClient r = Inl ''no authentication method specified'') =
     (\<not> snd (r_cram_md5_auth r) \<and> \<not> snd (r_plain_auth r))"
  by (cases "r_cram_md5_auth r"; cases "r_plain_auth r")
     (simp add: configureClient_def Let_def)

text \<open>
  C3 (as stated) fails: with both schemes present \<^verbatim>\<open>configureClient\<close> returns a client
  and no error.
\<close>

theorem configureClient_both_schemes_counterexample:
  "configureClient
      \<lparr>r_host = ''mail.example.com'', r_port = 25, r_username = ''alice'', r_from = '''',
       r_cram_md5_auth = ([\<lparr>secret = ''k''\<rparr>], True),
       r_plain_auth = ([\<lparr>password = ''pw'', identity = ''''\<rparr>], True)\<rparr>
     = Inr \<lparr>c_auth = CRAMMD5Auth ''alice'' ''k'', c_host = ''mail.example.com'',
            c_username = ''alice'', c_from = '''', c_port = 25\<rparr>
   \<and> configureClient
      \<lparr>r_host = ''mail.example.com'', r_port = 25, r_username = ''alice'', r_from = '''',
       r_cram_md5_auth = ([\<lparr>secret = ''k''\<rparr>], True),
       r_plain_auth = ([\<lparr>password = ''pw'', identity = ''''\<rparr>], True)\<rparr>
     \<noteq> Inl ''no authentication method specified''"
  by (simp add: configureClient_def)

text \<open>
  C10: when the CRAM-MD5 block is present with a non-empty list of settings,
  \<^verbatim>\<open>configureClient\<close> succeeds with the CRAM-MD5 strategy built from the username and
  the secret, whatever the \<^verbatim>\<open>plain_auth\<close> block holds (so also when both schemes are
  supplied): the result does not depend on \<^verbatim>\<open>plain_auth\<close>.
\<close>

theorem configureClient_cram_precedence:
  assumes "snd (r_cram_md5_auth r)" and "fst (r_cram_md5_auth r) \<noteq> []"
  shows "configureClient r =
           Inr \<lparr>c_auth = CRAMMD5Auth (r_username r) (secret (fst (r_cram_md5_auth r) ! 0)),
                c_host = r_host r, c_username = r_username r, c_from = r_from r,
                c_port = r_port r\<rparr>
         \<and> configureClient (r\<lparr>r_plain_auth := p\<rparr>) = configureClient r"
proof -
  obtain s ss where "r_cram_md5_auth r = (s # ss, True)"
    using assms by (cases "r_cram_md5_auth r"; cases "fst (r_cram_md5_auth r)") auto
  then show ?thesis
    by (simp add: configureClient_def)
qed

theorem configureClient_cram_precedence_witness:
  "configureClient
      \<lparr>r_host = ''localhost'', r_port = 587, r_username = ''test'', r_from = '''',
       r_cram_md5_auth = ([\<lparr>secret = ''s3''\<rparr>], True),
       r_plain_auth = ([\<lparr>password = ''pw'', identity = ''id''\<rparr>], True)\<rparr>
   = Inr \<lparr>c_auth = CRAMMD5Auth ''test'' ''s3'', c_host = ''localhost'',
          c_username = ''test'', c_from = '''', c_port = 587\<rparr>
   \<and> configureClient
      \<lparr>r_host = ''localhost'', r_port = 587, r_username = ''test'', r_from = '''',
       r_cram_md5_auth = ([\<lparr>secret = ''s3''\<rparr>], True),
       r_plain_auth = ([], False)\<rparr>
   = configureClient
      \<lparr>r_host = ''localhost'', r_port = 587, r_username = ''test'', r_from = '''',
       r_cram_md5_auth = ([\<lparr>secret = ''s3''\<rparr>], True),
       r_plain_auth = ([\<lparr>password = ''pw'', identity = ''id''\<rparr>], True)\<rparr>"
  using configureClient_cram_precedence
    [of "\<lparr>r_host = ''localhost'', r_port = 587, r_username = ''test'', r_from = '''',
       r_cram_md5_auth = ([\<lparr>secret = ''s3''\<rparr>], True),
       r_plain_auth = ([\<lparr>password = ''pw'', identity = ''id''\<rparr>], True)\<rparr>"
       "([], False)"]
  by simp

section \<open>Sequencing\<close>

lemma and_then_Inr [simp]: "and_then (Inr x) f = f x"
  by (simp add: and_then_def)

lemma and_then_Inl [simp]: "and_then (Inl e) f = Inl e"
  by (simp add: and_then_def)

lemma or_fail_Inr [simp]: "or_fail msg (Inr x) = Inr x"
  by (simp add: or_fail_def)

lemma or_fail_Inl [simp]: "or_fail msg (Inl e) = Inl (msg @ e)"
  by (simp add: or_fail_def)

lemma and_then_assoc: "and_then (and_then m f) g = and_then m (\<lambda>x. and_then (f x) g)"
  by (cases m) simp_all

section \<open>The dot writer\<close>

lemma dotWrite_append:
  "dotWrite st (a @ b) =
     (case dotWrite st a of (o1, s1) \<Rightarrow> case dotWrite s1 b of (o2, s2) \<Rightarrow> (o1 @ o2, s2))"
  by (induction a arbitrary: st) (auto split: prod.splits)

lemma dotWriteByte_length: "length (fst (dotWriteByte st c)) \<ge> 1"
  by (cases st) auto

lemma dotWrite_length: "length s \<le> length (fst (dotWrite st s))"
proof (induction s arbitrary: st)
  case Nil
  then show ?case by simp
next
  case (Cons c cs)
  obtain out st' where b: "dotWriteByte st c = (out, st')" by (cases "dotWriteByte st c")
  obtain outs st'' where r: "dotWrite st' cs = (outs, st'')" by (cases "dotWrite st' cs")
  have "1 \<le> length out" using dotWriteByte_length [of st c] b by simp
  moreover have "length cs \<le> length outs" using Cons.IH [of st'] r by simp
  ultimately show ?case using b r by simp
qed

lemma dotClose_length: "3 \<le> length (dotClose st)"
  by (cases st) auto

lemma dot_encode_longer: "length s + 3 \<le> length (dot_encode s)"
proof -
  obtain out st where w: "dotWrite wstateBegin s = (out, st)"
    by (cases "dotWrite wstateBegin s")
  have "length s \<le> length out" using dotWrite_length [of s wstateBegin] w by simp
  then show ?thesis using dotClose_length [of st] w by (simp add: dot_encode_def)
qed

lemma dot_encode_neq: "dot_encode s \<noteq> s"
proof
  assume "dot_encode s = s"
  then have "length (dot_encode s) = length s" by simp
  then show False using dot_encode_longer [of s] by simp
qed

section \<open>Runs of writes\<close>

lemma multi_write_ok:
  "write_err rt s = None \<Longrightarrow>
   multi_write rt s p w =
     Inr \<lparr>sumWriter = sumWriter w @ p,
          buffer = buffer w @ fst (dotWrite (dot w) p),
          dot = snd (dotWrite (dot w) p)\<rparr>"
  by (simp add: multi_write_def split: prod.splits)

lemma multi_write_fail: "write_err rt s = Some err \<Longrightarrow> multi_write rt s p w = Inl err"
  by (simp add: multi_write_def)

lemma run_writes_append:
  "run_writes rt (xs @ ys) w = and_then (run_writes rt xs w) (run_writes rt ys)"
proof (induction xs arbitrary: w)
  case Nil
  then show ?case by simp
next
  case (Cons x xs)
  obtain s p where x: "x = (s, p)" by (cases x)
  show ?case
    by (cases "or_fail (failure_prefix s) (multi_write rt s p w)") (simp_all add: x Cons.IH)
qed

lemma run_writes_ok:
  "list_all (\<lambda>x. write_ok rt (fst x)) xs \<Longrightarrow>
   run_writes rt xs w =
     Inr \<lparr>sumWriter = sumWriter w @ concat (map snd xs),
          buffer = buffer w @ fst (dotWrite (dot w) (concat (map snd xs))),
          dot = snd (dotWrite (dot w) (concat (map snd xs)))\<rparr>"
proof (induction xs arbitrary: w)
  case Nil
  then show ?case by simp
next
  case (Cons x xs)
  obtain s p where x: "x = (s, p)" by (cases x)
  from Cons.prems x have ok: "write_err rt s = None" and rest: "list_all (\<lambda>x. write_ok rt (fst x)) xs"
    by (simp_all add: write_ok_def)
  show ?case
    by (simp add: x multi_write_ok [OF ok] Cons.IH [OF rest] dotWrite_append split: prod.splits)
qed

lemma run_writes_fail:
  assumes "list_all (\<lambda>x. write_ok rt (fst x)) pre" and "write_err rt s = Some err"
  shows "run_writes rt (pre @ (s, p) # post) w = Inl (failure_prefix s @ err)"
  by (simp add: run_writes_append run_writes_ok [OF assms(1)] multi_write_fail [OF assms(2)])

lemma write_headers_run: "write_headers rt kvs w = run_writes rt (header_writes kvs) w"
proof (induction kvs arbitrary: w)
  case Nil
  then show ?case by (simp add: header_writes_def)
next
  case (Cons kv kvs)
  obtain k v where kv: "kv = (k, v)" by (cases kv)
  have hd: "header_writes ((k, v) # kvs) = (WHeader k, Sprintln [k, '': '', v]) # header_writes kvs"
    by (simp add: header_writes_def)
  have tl: "write_headers rt kvs = run_writes rt (header_writes kvs)"
    using Cons.IH by (intro ext)
  show ?case
    by (simp add: kv hd tl)
qed

lemma plan_steps: "map fst (plan rt client d) @ [WClose] = composition_writes rt d"
  by (simp add: plan_def composition_writes_def header_writes_def case_prod_unfold)

lemma compose_run:
  "compose rt client d =
     and_then (run_writes rt (plan rt client d) new_writers)
       (\<lambda>w. or_fail (failure_prefix WClose) (msgWriter_Close rt w))"
  by (simp add: compose_def plan_def run_writes_append write_headers_run and_then_assoc)

section \<open>The two ends of a composition\<close>

lemma compose_ok:
  assumes "list_all (write_ok rt) (composition_writes rt d)"
  shows "compose rt client d =
           Inr \<lparr>sumWriter = document rt client d,
                buffer = dot_encode (document rt client d),
                dot = snd (dotWrite wstateBegin (document rt client d))\<rparr>"
proof -
  from assms have "list_all (write_ok rt) (map fst (plan rt client d) @ [WClose])"
    by (simp only: plan_steps)
  then have writes: "list_all (\<lambda>x. write_ok rt (fst x)) (plan rt client d)"
    and close: "write_err rt WClose = None"
    by (simp_all add: list_all_iff write_ok_def)
  show ?thesis
    by (simp add: compose_run run_writes_ok [OF writes] msgWriter_Close_def close
        new_writers_def document_def dot_encode_def split: prod.splits)
qed

lemma compose_first_failure:
  assumes steps: "composition_writes rt d = pre @ s # post"
    and pre: "list_all (write_ok rt) pre"
    and fail: "write_err rt s = Some err"
  shows "compose rt client d = Inl (failure_prefix s @ err)"
proof (cases post rule: rev_cases)
  case Nil
  with steps have "map fst (plan rt client d) @ [WClose] = pre @ [s]"
    by (simp add: plan_steps)
  then have p: "map fst (plan rt client d) = pre" and s: "s = WClose"
    by simp_all
  from pre have writes: "list_all (\<lambda>x. write_ok rt (fst x)) (plan rt client d)"
    unfolding p [symmetric] by (simp add: list_all_iff)
  show ?thesis
    using fail
    by (simp add: compose_run run_writes_ok [OF writes] msgWriter_Close_def s)
next
  case (snoc post' l)
  with steps have "map fst (plan rt client d) @ [WClose] = (pre @ s # post') @ [l]"
    by (simp add: plan_steps)
  then have "map fst (plan rt client d) = pre @ s # post'"
    by (simp only: append1_eq_conv)
  then obtain ppre x ppost where pl: "plan rt client d = ppre @ x # ppost"
    and ppre: "map fst ppre = pre" and x: "fst x = s"
    by (auto simp: map_eq_append_conv map_eq_Cons_conv)
  from pre have writes: "list_all (\<lambda>x. write_ok rt (fst x)) ppre"
    unfolding ppre [symmetric] by (simp add: list_all_iff)
  obtain p where "x = (s, p)" using x by (cases x) simp
  then show ?thesis
    by (simp add: compose_run pl run_writes_fail [OF writes fail])
qed

lemma first_failing_write:
  assumes "\<not> list_all (write_ok rt) steps"
  shows "\<exists>pre s post err. steps = pre @ s # post \<and> list_all (write_ok rt) pre
           \<and> write_err rt s = Some err"
proof -
  from assms have "\<exists>s \<in> set steps. \<not> write_ok rt s"
    by (simp add: list_all_iff)
  from split_list_first_prop [OF this]
  obtain pre s post where "steps = pre @ s # post" and "\<not> write_ok rt s"
    and "\<forall>y \<in> set pre. \<not> \<not> write_ok rt y"
    by blast
  then show ?thesis
    by (auto simp: list_all_iff write_ok_def)
qed

lemma compose_Inr_writes_ok:
  assumes "compose rt client d = Inr w"
  shows "list_all (write_ok rt) (composition_writes rt d)"
proof (rule ccontr)
  assume "\<not> list_all (write_ok rt) (composition_writes rt d)"
  then obtain pre s post err where "composition_writes rt d = pre @ s # post"
    and "list_all (write_ok rt) pre" and "write_err rt s = Some err"
    using first_failing_write by blast
  then have "compose rt client d = Inl (failure_prefix s @ err)"
    by (rule compose_first_failure)
  with assms show False by simp
qed

lemma compose_Inr:
  assumes "compose rt client d = Inr w"
  shows "w = \<lparr>sumWriter = document rt client d,
              buffer = dot_encode (document rt client d),
              dot = snd (dotWrite wstateBegin (document rt client d))\<rparr>"
  using compose_ok [OF compose_Inr_writes_ok [OF assms], of client] assms by simp

lemma compose_Inl_no_effect:
  "compose rt client d = Inl msg \<Longrightarrow>
   resourceMessageCreate rt client d = \<lparr>diags = Some msg, sent = None, rid = None\<rparr>"
  by (simp add: resourceMessageCreate_def)

section \<open>The recipient set\<close>

lemma set_key_set: "set (set_key r m) = insert r (set m)"
  by (auto simp: set_key_def)

lemma set_key_distinct: "distinct m \<Longrightarrow> distinct (set_key r m)"
  by (simp add: set_key_def)

lemma fold_set_key_set: "set (fold set_key xs m) = set m \<union> set xs"
  by (induction xs arbitrary: m) (auto simp: set_key_set)

lemma fold_set_key_distinct: "distinct m \<Longrightarrow> distinct (fold set_key xs m)"
  by (induction xs arbitrary: m) (simp_all add: set_key_distinct)

lemma fold_lists_set:
  "set (fold (\<lambda>recipient m. fold set_key recipient m) rs m) = set m \<union> \<Union> (set ` set rs)"
  by (induction rs arbitrary: m) (auto simp: fold_set_key_set)

lemma fold_lists_distinct:
  "distinct m \<Longrightarrow> distinct (fold (\<lambda>recipient m. fold set_key recipient m) rs m)"
  by (induction rs arbitrary: m) (simp_all add: fold_set_key_distinct)

lemma fold_append_out: "fold (\<lambda>r out. out @ [r]) xs acc = acc @ xs"
  by (induction xs arbitrary: acc) simp_all

lemma uniqueRecipients_mset:
  assumes "\<forall>ks. mset (recipients_range rt ks) = mset ks"
  shows "mset (uniqueRecipients rt rs) =
           mset (fold (\<lambda>recipient m. fold set_key recipient m) rs [])"
  using assms by (simp add: uniqueRecipients_def fold_append_out)

lemma uniqueRecipients_set:
  assumes "\<forall>ks. mset (recipients_range rt ks) = mset ks"
  shows "set (uniqueRecipients rt rs) = \<Union> (set ` set rs)"
proof -
  have "set (uniqueRecipients rt rs) =
          set (fold (\<lambda>recipient m. fold set_key recipient m) rs [])"
    using uniqueRecipients_mset [OF assms] by (rule mset_eq_setD)
  then show ?thesis by (simp add: fold_lists_set)
qed

lemma uniqueRecipients_distinct:
  assumes "\<forall>ks. mset (recipients_range rt ks) = mset ks"
  shows "distinct (uniqueRecipients rt rs)"
proof -
  have "distinct (fold (\<lambda>recipient m. fold set_key recipient m) rs [])"
    by (rule fold_lists_distinct) simp
  then show ?thesis
    using mset_eq_imp_distinct_iff [OF uniqueRecipients_mset [OF assms]] by simp
qed

section \<open>The identity string\<close>

lemma digit_char_is_digit: "n < 10 \<Longrightarrow> is_digit (digit_char n)"
  unfolding is_digit_def digit_char_def by (rule nth_mem) simp

lemma decimal_digits: "decimal n \<noteq> [] \<and> list_all is_digit (decimal n)"
proof (induction n rule: decimal.induct)
  case (1 n)
  show ?case
  proof (cases "n < 10")
    case True
    then show ?thesis by (simp add: decimal.simps [of n] digit_char_is_digit)
  next
    case False
    have "is_digit (digit_char (n mod 10))" by (rule digit_char_is_digit) simp
    with False "1.IH" show ?thesis by (simp add: decimal.simps [of n])
  qed
qed

lemma hex_digit_is_lower_hex: "n < 16 \<Longrightarrow> is_lower_hex (hex_digit n)"
  unfolding is_lower_hex_def hex_digit_def by (rule nth_mem) simp

lemma format_x_length: "length (format_x bs) = 2 * length bs"
  by (induction bs) (simp_all add: format_x_def)

lemma format_x_lower_hex: "list_all is_lower_hex (format_x bs)"
proof (induction bs)
  case Nil
  then show ?case by (simp add: format_x_def)
next
  case (Cons b bs)
  have "(of_char b :: nat) < 256" by (rule nat_of_char_less_256)
  then have "(of_char b :: nat) div 16 < 16" by arith
  then have hi: "is_lower_hex (hex_digit ((of_char b :: nat) div 16))"
    by (rule hex_digit_is_lower_hex)
  have lo: "is_lower_hex (hex_digit ((of_char b :: nat) mod 16))"
    by (rule hex_digit_is_lower_hex) simp
  from Cons hi lo show ?case by (simp add: format_x_def)
qed

lemma hyphen_not_digit: "\<not> is_digit CHR ''-''"
  by (simp add: is_digit_def)

lemma id_pattern_intro:
  assumes "ds \<noteq> []" and "list_all is_digit ds"
    and "length hs = 64" and "list_all is_lower_hex hs"
  shows "id_pattern (ds @ ''-'' @ hs)"
proof -
  have all: "\<And>x. x \<in> set ds \<Longrightarrow> is_digit x"
    using assms(2) by (simp add: list_all_iff)
  have t: "takeWhile is_digit (ds @ CHR ''-'' # hs) = ds"
    by (simp add: takeWhile_append2 [OF all] hyphen_not_digit)
  have d: "dropWhile is_digit (ds @ CHR ''-'' # hs) = CHR ''-'' # hs"
    by (simp add: dropWhile_append2 [OF all] hyphen_not_digit)
  show ?thesis
    using assms by (simp add: id_pattern_def t d)
qed

lemma identity_matches_pattern:
  assumes "0 \<le> t" and "length digest = 32"
  shows "id_pattern (format_d t @ ''-'' @ format_x digest)"
proof (rule id_pattern_intro)
  show "format_d t \<noteq> []" using assms(1) decimal_digits by (simp add: format_d_def)
  show "list_all is_digit (format_d t)" using assms(1) decimal_digits by (simp add: format_d_def)
  show "length (format_x digest) = 64" using assms(2) by (simp add: format_x_length)
  show "list_all is_lower_hex (format_x digest)" by (rule format_x_lower_hex)
qed

section \<open>After the composition\<close>

lemma create_sent:
  assumes "compose rt client d = Inr w"
  shows "sent (resourceMessageCreate rt client d) =
           Some \<lparr>sm_addr = c_host client @ '':'' @ format_d (c_port client),
                 sm_auth = c_auth client, sm_from = c_username client,
                 sm_to = uniqueRecipients rt [d_to d, d_cc d, d_bcc d],
                 sm_msg = buffer w\<rparr>"
  using assms by (simp add: resourceMessageCreate_def Let_def split: option.splits)

lemma create_rid:
  assumes "compose rt client d = Inr w"
    and "sent (resourceMessageCreate rt client d) = Some call"
  shows "rid (resourceMessageCreate rt client d) =
           (case send_mail_err rt call of
              Some err \<Rightarrow> None
            | None \<Rightarrow> Some (format_d (unix_nano rt) @ ''-'' @
                             format_x (sha256_sum rt (sumWriter w))))"
  using assms by (auto simp: resourceMessageCreate_def Let_def split: option.splits)

lemma create_diags:
  assumes "compose rt client d = Inr w"
    and "sent (resourceMessageCreate rt client d) = Some call"
  shows "diags (resourceMessageCreate rt client d) =
           (case send_mail_err rt call of
              Some err \<Rightarrow> Some (''Error sending message as '' @ c_username client @ '': '' @ err)
            | None \<Rightarrow> None)"
  using assms by (auto simp: resourceMessageCreate_def Let_def split: option.splits)

lemma create_sent_compose:
  assumes "sent (resourceMessageCreate rt client d) = Some call"
  shows "\<exists>w. compose rt client d = Inr w"
  using assms by (cases "compose rt client d") (simp_all add: resourceMessageCreate_def)

lemma document_unfold:
  "document rt client d =
     ''From:  '' @ effective_from client d @ [LF]
     @ ''Subject:  '' @ d_subject d @ [LF]
     @ (if d_to d \<noteq> [] then ''To:  '' @ join '', '' (d_to d) @ [LF] else [])
     @ (if d_cc d \<noteq> [] then ''Cc:  '' @ join '', '' (d_cc d) @ [LF] else [])
     @ concat (map (\<lambda>(k, v). Sprintln [k, '': '', v]) (headers_range rt (d_headers d)))
     @ [LF] @ d_body d"
  by (simp add: document_def plan_def header_writes_def Sprintln_def comp_def case_prod_unfold)

section \<open>The example environment\<close>

lemma example_runtime_writes_ok: "list_all (write_ok example_runtime) steps"
  by (simp add: list_all_iff write_ok_def example_runtime_def)

lemma example_compose:
  "compose example_runtime client d =
     Inr \<lparr>sumWriter = document example_runtime client d,
          buffer = dot_encode (document example_runtime client d),
          dot = snd (dotWrite wstateBegin (document example_runtime client d))\<rparr>"
  by (rule compose_ok) (rule example_runtime_writes_ok)

lemma example_ranges:
  "\<forall>ks. mset (recipients_range example_runtime ks) = mset ks"
  "\<forall>kvs. mset (headers_range example_runtime kvs) = mset kvs"
  by (simp_all add: example_runtime_def)

lemma example_digest_length: "\<forall>bs. length (sha256_sum example_runtime bs) = 32"
  by (simp add: example_runtime_def min_def)

lemma example_document:
  "document example_runtime example_client example_message =
     ''From:  test\<newline>Subject:  Hi\<newline>To:  a@x.com\<newline>Cc:  b@x.com\<newline>X-Test :  1\<newline>\<newline>Boom''"
  by (simp add: document_unfold example_runtime_def example_client_def example_message_def
      effective_from_def Sprintln_def LF_def)

section \<open>Blind copies\<close>

text \<open>
  C1 (as stated) fails: in the example message the address \<^verbatim>\<open>a@x.com\<close> is in
  \<^verbatim>\<open>bcc\<close> and in \<^verbatim>\<open>to\<close>, and the To line of the bytes written holds it.
\<close>

theorem bcc_in_header_counterexample:
  "d_bcc example_message = [''c@x.com'', ''a@x.com'']
   \<and> compose example_runtime example_client example_message =
     Inr \<lparr>sumWriter =
            ''From:  test\<newline>Subject:  Hi\<newline>To:  a@x.com\<newline>Cc:  b@x.com\<newline>X-Test :  1\<newline>\<newline>Boom'',
          buffer = dot_encode
            ''From:  test\<newline>Subject:  Hi\<newline>To:  a@x.com\<newline>Cc:  b@x.com\<newline>X-Test :  1\<newline>\<newline>Boom'',
          dot = wstateData\<rparr>
   \<and> split_lines
       ''From:  test\<newline>Subject:  Hi\<newline>To:  a@x.com\<newline>Cc:  b@x.com\<newline>X-Test :  1\<newline>\<newline>Boom''
     = [''From:  test'', ''Subject:  Hi'', ''To:  a@x.com'', ''Cc:  b@x.com'',
        ''X-Test :  1'', '''', ''Boom'']
   \<and> ''To:  a@x.com'' = ''To:  '' @ ''a@x.com''"
proof -
  have bcc: "d_bcc example_message = [''c@x.com'', ''a@x.com'']"
    by (simp add: example_message_def)
  have st: "snd (dotWrite wstateBegin
      ''From:  test\<newline>Subject:  Hi\<newline>To:  a@x.com\<newline>Cc:  b@x.com\<newline>X-Test :  1\<newline>\<newline>Boom'')
      = wstateData"
    by (simp add: LF_def CR_def)
  have comp: "compose example_runtime example_client example_message =
     Inr \<lparr>sumWriter =
            ''From:  test\<newline>Subject:  Hi\<newline>To:  a@x.com\<newline>Cc:  b@x.com\<newline>X-Test :  1\<newline>\<newline>Boom'',
          buffer = dot_encode
            ''From:  test\<newline>Subject:  Hi\<newline>To:  a@x.com\<newline>Cc:  b@x.com\<newline>X-Test :  1\<newline>\<newline>Boom'',
          dot = wstateData\<rparr>"
    by (simp only: example_compose example_document st)
  have lines: "split_lines
       ''From:  test\<newline>Subject:  Hi\<newline>To:  a@x.com\<newline>Cc:  b@x.com\<newline>X-Test :  1\<newline>\<newline>Boom''
     = [''From:  test'', ''Subject:  Hi'', ''To:  a@x.com'', ''Cc:  b@x.com'',
        ''X-Test :  1'', '''', ''Boom'']"
    by (simp add: LF_def)
  have "''To:  a@x.com'' = ''To:  '' @ ''a@x.com''"
    by simp
  with bcc comp lines show ?thesis
    by (intro conjI)
qed

text \<open>
  C1 (as amended): the header-writing steps never consult \<^verbatim>\<open>bcc\<close>: the result of the
  composition (the bytes hashed, the buffer, or the error) is the same whatever the
  \<^verbatim>\<open>bcc\<close> set is, so an address is in a header line only when another attribute
  holds it. And when the composition succeeds, \<^verbatim>\<open>smtp.SendMail\<close> is called with that
  buffer and a recipient list that holds every \<^verbatim>\<open>bcc\<close> address.
\<close>

theorem bcc_only_in_recipients:
  assumes "\<forall>ks. mset (recipients_range rt ks) = mset ks"
  shows "compose rt client (d\<lparr>d_bcc := bccs\<rparr>) = compose rt client d
       \<and> (compose rt client d = Inr w \<longrightarrow>
            (\<exists>call. sent (resourceMessageCreate rt client d) = Some call
                   \<and> sm_msg call = buffer w
                   \<and> set (d_bcc d) \<subseteq> set (sm_to call)))"
proof -
  have "compose rt client (d\<lparr>d_bcc := bccs\<rparr>) = compose rt client d"
    by (simp add: compose_def effective_from_def cong: if_cong)
  moreover have "set (d_bcc d) \<subseteq> set (uniqueRecipients rt [d_to d, d_cc d, d_bcc d])"
    by (auto simp: uniqueRecipients_set [OF assms])
  ultimately show ?thesis
    by (simp add: create_sent)
qed

theorem bcc_only_in_recipients_witness:
  "compose example_runtime example_client (example_message\<lparr>d_bcc := []\<rparr>)
     = compose example_runtime example_client example_message
   \<and> (\<exists>call. sent (resourceMessageCreate example_runtime example_client example_message)
                = Some call
            \<and> sm_msg call = dot_encode (document example_runtime example_client example_message)
            \<and> set [''c@x.com'', ''a@x.com''] \<subseteq> set (sm_to call))"
proof -
  let ?w = "\<lparr>sumWriter = document example_runtime example_client example_message,
             buffer = dot_encode (document example_runtime example_client example_message),
             dot = snd (dotWrite wstateBegin
                     (document example_runtime example_client example_message))\<rparr>"
  have ok: "compose example_runtime example_client example_message = Inr ?w"
    by (rule example_compose)
  have bcc: "d_bcc example_message = [''c@x.com'', ''a@x.com'']"
    by (simp add: example_message_def)
  show ?thesis
    using bcc_only_in_recipients [where rt = example_runtime and client = example_client
        and d = example_message and bccs = "[]" and w = ?w, OF example_ranges(1)] ok bcc
    by simp
qed

section \<open>The bytes hashed and the bytes sent\<close>

text \<open>
  C2 (as stated) fails: for the example message the hash absorbs the document with bare
  line feeds, and the buffer given to \<^verbatim>\<open>smtp.SendMail\<close> holds its dot-encoding, with
  carriage returns and the final dot line.
\<close>

theorem fingerprint_bytes_counterexample:
  "compose example_runtime example_client example_message =
     Inr \<lparr>sumWriter =
            ''From:  test\<newline>Subject:  Hi\<newline>To:  a@x.com\<newline>Cc:  b@x.com\<newline>X-Test :  1\<newline>\<newline>Boom'',
          buffer =
            ''From:  test'' @ [CR, LF] @ ''Subject:  Hi'' @ [CR, LF] @ ''To:  a@x.com'' @ [CR, LF]
            @ ''Cc:  b@x.com'' @ [CR, LF] @ ''X-Test :  1'' @ [CR, LF] @ [CR, LF]
            @ ''Boom'' @ [CR, LF] @ ''.'' @ [CR, LF],
          dot = wstateData\<rparr>
   \<and> sent (resourceMessageCreate example_runtime example_client example_message) =
     Some \<lparr>sm_addr = ''localhost:587'',
           sm_auth = PlainAuth '''' ''test'' ''test'' ''localhost'',
           sm_from = ''test'',
           sm_to = [''a@x.com'', ''b@x.com'', ''c@x.com''],
           sm_msg =
            ''From:  test'' @ [CR, LF] @ ''Subject:  Hi'' @ [CR, LF] @ ''To:  a@x.com'' @ [CR, LF]
            @ ''Cc:  b@x.com'' @ [CR, LF] @ ''X-Test :  1'' @ [CR, LF] @ [CR, LF]
            @ ''Boom'' @ [CR, LF] @ ''.'' @ [CR, LF]\<rparr>
   \<and> ''From:  test\<newline>Subject:  Hi\<newline>To:  a@x.com\<newline>Cc:  b@x.com\<newline>X-Test :  1\<newline>\<newline>Boom''
     \<noteq> ''From:  test'' @ [CR, LF] @ ''Subject:  Hi'' @ [CR, LF] @ ''To:  a@x.com'' @ [CR, LF]
            @ ''Cc:  b@x.com'' @ [CR, LF] @ ''X-Test :  1'' @ [CR, LF] @ [CR, LF]
            @ ''Boom'' @ [CR, LF] @ ''.'' @ [CR, LF]"
proof -
  note ok = example_compose [of example_client example_message]
  note doc = example_document
  have port: "format_d 587 = ''587''"
    by (simp add: format_d_def decimal.simps digit_char_def)
  have rcpt: "uniqueRecipients example_runtime [[''a@x.com''], [''b@x.com''], [''c@x.com'', ''a@x.com'']]
      = [''a@x.com'', ''b@x.com'', ''c@x.com'']"
    by (simp add: uniqueRecipients_def example_runtime_def set_key_def)
  have c: "c_host example_client = ''localhost''" "c_port example_client = 587"
    "c_username example_client = ''test''"
    "c_auth example_client = PlainAuth '''' ''test'' ''test'' ''localhost''"
    by (simp_all add: example_client_def)
  have d: "d_to example_message = [''a@x.com'']" "d_cc example_message = [''b@x.com'']"
    "d_bcc example_message = [''c@x.com'', ''a@x.com'']"
    by (simp_all add: example_message_def)
  have comp: "compose example_runtime example_client example_message =
     Inr \<lparr>sumWriter =
            ''From:  test\<newline>Subject:  Hi\<newline>To:  a@x.com\<newline>Cc:  b@x.com\<newline>X-Test :  1\<newline>\<newline>Boom'',
          buffer =
            ''From:  test'' @ [CR, LF] @ ''Subject:  Hi'' @ [CR, LF] @ ''To:  a@x.com'' @ [CR, LF]
            @ ''Cc:  b@x.com'' @ [CR, LF] @ ''X-Test :  1'' @ [CR, LF] @ [CR, LF]
            @ ''Boom'' @ [CR, LF] @ ''.'' @ [CR, LF],
          dot = wstateData\<rparr>"
    by (simp add: ok doc dot_encode_def LF_def CR_def)
  show ?thesis
    by (simp add: comp create_sent [OF comp] c d port rcpt LF_def CR_def)
qed

text \<open>
  C2 (as amended): when the composition succeeds, the buffer is the dot-encoding of
  exactly the bytes the hash has absorbed (one write pass feeds both), it is never equal
  to them, \<^verbatim>\<open>smtp.SendMail\<close> is called with the buffer, and the identity set after a
  successful send carries the digest of the bytes absorbed, not of the buffer.
\<close>

theorem fingerprint_over_unframed_bytes:
  assumes "compose rt client d = Inr w"
  shows "buffer w = dot_encode (sumWriter w)
       \<and> buffer w \<noteq> sumWriter w
       \<and> (\<exists>call. sent (resourceMessageCreate rt client d) = Some call
              \<and> sm_msg call = dot_encode (sumWriter w)
              \<and> (send_mail_err rt call = None \<longrightarrow>
                   rid (resourceMessageCreate rt client d) =
                     Some (format_d (unix_nano rt) @ ''-'' @
                           format_x (sha256_sum rt (sumWriter w)))))"
proof -
  have enc: "buffer w = dot_encode (sumWriter w)"
    using compose_Inr [OF assms] by simp
  then have neq: "buffer w \<noteq> sumWriter w"
    by (simp add: dot_encode_neq)
  obtain call where call: "sent (resourceMessageCreate rt client d) = Some call"
    and msg: "sm_msg call = buffer w"
    using create_sent [OF assms] by simp
  have "send_mail_err rt call = None \<longrightarrow>
          rid (resourceMessageCreate rt client d) =
            Some (format_d (unix_nano rt) @ ''-'' @ format_x (sha256_sum rt (sumWriter w)))"
    by (simp add: create_rid [OF assms call])
  with enc neq call msg show ?thesis by simp
qed

theorem fingerprint_over_unframed_bytes_witness:
  "dot_encode (document example_runtime example_client example_message)
     \<noteq> document example_runtime example_client example_message
   \<and> (\<exists>call. sent (resourceMessageCreate example_runtime example_client example_message)
                = Some call
            \<and> sm_msg call = dot_encode (document example_runtime example_client example_message)
            \<and> rid (resourceMessageCreate example_runtime example_client example_message) =
                Some (format_d (unix_nano example_runtime) @ ''-'' @
                      format_x (sha256_sum example_runtime
                        (document example_runtime example_client example_message))))"
proof -
  let ?w = "\<lparr>sumWriter = document example_runtime example_client example_message,
             buffer = dot_encode (document example_runtime example_client example_message),
             dot = snd (dotWrite wstateBegin
                     (document example_runtime example_client example_message))\<rparr>"
  have ok: "compose example_runtime example_client example_message = Inr ?w"
    by (rule example_compose)
  have send: "send_mail_err example_runtime call = None" for call
    by (simp add: example_runtime_def)
  show ?thesis
    using fingerprint_over_unframed_bytes [OF ok] by (simp add: send)
qed

section \<open>The sender\<close>

text \<open>
  C4: the sender written into the From header is the message's \<^verbatim>\<open>from\<close> when it is
  not empty, else the account's default \<^verbatim>\<open>from\<close> when that is not empty, else the
  account's username; and the bytes of a composition that succeeds start with the line
  \<^verbatim>\<open>From:  <sender>\<close>.
\<close>

theorem effective_sender_precedence:
  "effective_from client d =
     (if d_from d \<noteq> '''' then d_from d
      else if c_from client \<noteq> '''' then c_from client
      else c_username client)
   \<and> (compose rt client d = Inr w \<longrightarrow>
        (\<exists>rest. sumWriter w = ''From:  '' @ effective_from client d @ [LF] @ rest))"
proof -
  have "compose rt client d = Inr w \<longrightarrow>
        (\<exists>rest. sumWriter w = ''From:  '' @ effective_from client d @ [LF] @ rest)"
  proof
    assume "compose rt client d = Inr w"
    then have "sumWriter w = document rt client d"
      using compose_Inr by fastforce
    then show "\<exists>rest. sumWriter w = ''From:  '' @ effective_from client d @ [LF] @ rest"
      by (simp add: document_unfold)
  qed
  then show ?thesis
    by (simp add: effective_from_def)
qed

theorem effective_sender_precedence_witness:
  "effective_from (example_client\<lparr>c_from := ''B'', c_username := ''C''\<rparr>)
                  (example_message\<lparr>d_from := ''A''\<rparr>) = ''A''
   \<and> effective_from (example_client\<lparr>c_from := ''B'', c_username := ''C''\<rparr>)
                    (example_message\<lparr>d_from := ''''\<rparr>) = ''B''
   \<and> effective_from (example_client\<lparr>c_from := '''', c_username := ''C''\<rparr>)
                    (example_message\<lparr>d_from := ''''\<rparr>) = ''C''
   \<and> (\<exists>rest. document example_runtime (example_client\<lparr>c_from := ''B'', c_username := ''C''\<rparr>)
                 (example_message\<lparr>d_from := ''A''\<rparr>)
               = ''From:  A'' @ [LF] @ rest)"
proof -
  let ?c = "example_client\<lparr>c_from := ''B'', c_username := ''C''\<rparr>"
  let ?d = "example_message\<lparr>d_from := ''A''\<rparr>"
  let ?w = "\<lparr>sumWriter = document example_runtime ?c ?d,
             buffer = dot_encode (document example_runtime ?c ?d),
             dot = snd (dotWrite wstateBegin (document example_runtime ?c ?d))\<rparr>"
  have ok: "compose example_runtime ?c ?d = Inr ?w"
    by (rule example_compose)
  have a: "effective_from ?c ?d = ''A''"
    using effective_sender_precedence [of ?c ?d, THEN conjunct1] by simp
  have b: "effective_from ?c (example_message\<lparr>d_from := ''''\<rparr>) = ''B''"
    using effective_sender_precedence
      [of ?c "example_message\<lparr>d_from := ''''\<rparr>", THEN conjunct1]
    by simp
  have c: "effective_from (example_client\<lparr>c_from := '''', c_username := ''C''\<rparr>)
             (example_message\<lparr>d_from := ''''\<rparr>) = ''C''"
    using effective_sender_precedence
      [of "example_client\<lparr>c_from := '''', c_username := ''C''\<rparr>"
          "example_message\<lparr>d_from := ''''\<rparr>", THEN conjunct1]
    by simp
  have "\<exists>rest. sumWriter ?w = ''From:  '' @ effective_from ?c ?d @ [LF] @ rest"
    using effective_sender_precedence [of ?c ?d example_runtime ?w, THEN conjunct2] ok
    by (rule mp)
  then have line: "\<exists>rest. document example_runtime ?c ?d = ''From:  A'' @ [LF] @ rest"
    by (simp add: a)
  from a b c line show ?thesis
    by (intro conjI)
qed

section \<open>The recipient list\<close>

text \<open>
  C5: \<^verbatim>\<open>uniqueRecipients(to, cc, bcc)\<close> holds an address exactly when one of the three
  lists holds that very string, holds it once, and holds the same addresses for any
  other three lists with the same union (so whatever the order of the elements and
  however often an address is repeated within or across the lists).
\<close>

theorem uniqueRecipients_union:
  assumes "\<forall>ks. mset (recipients_range rt ks) = mset ks"
  shows "(a \<in> set (uniqueRecipients rt [tos, ccs, bccs]))
           = (a \<in> set tos \<or> a \<in> set ccs \<or> a \<in> set bccs)
       \<and> distinct (uniqueRecipients rt [tos, ccs, bccs])
       \<and> count_list (uniqueRecipients rt [tos, ccs, bccs]) a
           = (if a \<in> set tos \<or> a \<in> set ccs \<or> a \<in> set bccs then 1 else 0)
       \<and> (set tos' \<union> set ccs' \<union> set bccs' = set tos \<union> set ccs \<union> set bccs \<longrightarrow>
            set (uniqueRecipients rt [tos', ccs', bccs'])
              = set (uniqueRecipients rt [tos, ccs, bccs]))"
proof -
  have mem: "set (uniqueRecipients rt [x, y, z]) = set x \<union> set y \<union> set z" for x y z
    by (auto simp: uniqueRecipients_set [OF assms])
  have dist: "distinct (uniqueRecipients rt [tos, ccs, bccs])"
    by (rule uniqueRecipients_distinct [OF assms])
  have "\<forall>x. count (mset (uniqueRecipients rt [tos, ccs, bccs])) x
          = (if x \<in> set (uniqueRecipients rt [tos, ccs, bccs]) then 1 else 0)"
    using dist unfolding distinct_count_atmost_1 .
  then have cnt: "count_list (uniqueRecipients rt [tos, ccs, bccs]) a
          = (if a \<in> set (uniqueRecipients rt [tos, ccs, bccs]) then 1 else 0)"
    by (simp only: count_mset)
  have inv: "set tos' \<union> set ccs' \<union> set bccs' = set tos \<union> set ccs \<union> set bccs \<longrightarrow>
            set (uniqueRecipients rt [tos', ccs', bccs'])
              = set (uniqueRecipients rt [tos, ccs, bccs])"
    by (simp only: mem) simp
  have iff: "(a \<in> set (uniqueRecipients rt [tos, ccs, bccs]))
           = (a \<in> set tos \<or> a \<in> set ccs \<or> a \<in> set bccs)"
    by (simp only: mem Un_iff disj_assoc)
  from cnt have cnt': "count_list (uniqueRecipients rt [tos, ccs, bccs]) a
           = (if a \<in> set tos \<or> a \<in> set ccs \<or> a \<in> set bccs then 1 else 0)"
    by (simp only: iff)
  from iff dist cnt' inv show ?thesis
    by (intro conjI)
qed

theorem uniqueRecipients_union_witness:
  "set (uniqueRecipients example_runtime [[''a'', ''b''], [''b''], [''c'', ''a'']])
     = {''a'', ''b'', ''c''}
   \<and> distinct (uniqueRecipients example_runtime [[''a'', ''b''], [''b''], [''c'', ''a'']])
   \<and> count_list (uniqueRecipients example_runtime [[''a'', ''b''], [''b''], [''c'', ''a'']]) ''a'' = 1
   \<and> set (uniqueRecipients example_runtime [[''c'', ''c''], [''a'', ''b''], [''b'', ''a'']])
     = set (uniqueRecipients example_runtime [[''a'', ''b''], [''b''], [''c'', ''a'']])"
proof -
  let ?out = "uniqueRecipients example_runtime [[''a'', ''b''], [''b''], [''c'', ''a'']]"
  have mem: "x \<in> set ?out \<longleftrightarrow> x \<in> {''a'', ''b'', ''c''}" for x
  proof -
    have "(x \<in> set ?out) = (x \<in> set [''a'', ''b''] \<or> x \<in> set [''b''] \<or> x \<in> set [''c'', ''a''])"
      using uniqueRecipients_union [OF example_ranges(1), THEN conjunct1] .
    also have "\<dots> = (x \<in> {''a'', ''b'', ''c''})"
      by (simp only: list.set insert_iff empty_iff) blast
    finally show ?thesis .
  qed
  then have s: "set ?out = {''a'', ''b'', ''c''}"
    by (rule set_eqI)
  note rest = uniqueRecipients_union [where rt = example_runtime
        and a = "''a''" and tos = "[''a'', ''b'']" and ccs = "[''b'']" and bccs = "[''c'', ''a'']"
        and tos' = "[''c'', ''c'']" and ccs' = "[''a'', ''b'']" and bccs' = "[''b'', ''a'']",
      OF example_ranges(1), THEN conjunct2]
  have d: "distinct ?out"
    using rest by (rule conjunct1)
  have "count_list ?out ''a'' =
          (if ''a'' \<in> set [''a'', ''b''] \<or> ''a'' \<in> set [''b''] \<or> ''a'' \<in> set [''c'', ''a'']
           then 1 else 0)"
    using rest by (rule conjunct2 [THEN conjunct1])
  then have c: "count_list ?out ''a'' = 1"
    by (simp only: list.set insert_iff simp_thms if_True)
  have u: "set [''c'', ''c''] \<union> set [''a'', ''b''] \<union> set [''b'', ''a'']
             = set [''a'', ''b''] \<union> set [''b''] \<union> set [''c'', ''a'']"
    by (simp only: list.set) blast
  have i: "set (uniqueRecipients example_runtime [[''c'', ''c''], [''a'', ''b''], [''b'', ''a'']])
             = set ?out"
    using rest [THEN conjunct2, THEN conjunct2] u by (rule mp)
  from s d c i show ?thesis
    by (intro conjI)
qed

section \<open>The order of the document\<close>

text \<open>
  C6: the bytes that a composition writes (and the hash absorbs) are, in this order: the
  line \<^verbatim>\<open>From:  <sender>\<close> with two spaces, the Subject line, a To line exactly when
  \<^verbatim>\<open>to\<close> is not empty, a Cc line exactly when \<^verbatim>\<open>cc\<close> is not empty, one line for
  each extra header in the order of the range, one empty line, and the body as it is.
\<close>

theorem document_order:
  assumes "compose rt client d = Inr w"
  shows "sumWriter w =
           ''From:  '' @ effective_from client d @ [LF]
           @ ''Subject:  '' @ d_subject d @ [LF]
           @ (if d_to d \<noteq> [] then ''To:  '' @ join '', '' (d_to d) @ [LF] else [])
           @ (if d_cc d \<noteq> [] then ''Cc:  '' @ join '', '' (d_cc d) @ [LF] else [])
           @ concat (map (\<lambda>(k, v). Sprintln [k, '': '', v]) (headers_range rt (d_headers d)))
           @ [LF] @ d_body d"
proof -
  have "sumWriter w = document rt client d"
    using compose_Inr [OF assms] by simp
  then show ?thesis
    by (simp only: document_unfold)
qed

theorem document_order_witness:
  "compose example_runtime example_client
     (example_message\<lparr>d_body := ''Boom\<newline>.end'', d_cc := []\<rparr>)
   = Inr \<lparr>sumWriter = document example_runtime example_client
                          (example_message\<lparr>d_body := ''Boom\<newline>.end'', d_cc := []\<rparr>),
          buffer = dot_encode (document example_runtime example_client
                          (example_message\<lparr>d_body := ''Boom\<newline>.end'', d_cc := []\<rparr>)),
          dot = snd (dotWrite wstateBegin (document example_runtime example_client
                          (example_message\<lparr>d_body := ''Boom\<newline>.end'', d_cc := []\<rparr>)))\<rparr>
   \<and> document example_runtime example_client
       (example_message\<lparr>d_body := ''Boom\<newline>.end'', d_cc := []\<rparr>)
     = ''From:  test\<newline>Subject:  Hi\<newline>To:  a@x.com\<newline>X-Test :  1\<newline>\<newline>Boom\<newline>.end''"
proof -
  let ?d = "example_message\<lparr>d_body := ''Boom\<newline>.end'', d_cc := []\<rparr>"
  let ?w = "\<lparr>sumWriter = document example_runtime example_client ?d,
             buffer = dot_encode (document example_runtime example_client ?d),
             dot = snd (dotWrite wstateBegin (document example_runtime example_client ?d))\<rparr>"
  have ok: "compose example_runtime example_client ?d = Inr ?w"
    by (rule example_compose)
  have "sumWriter ?w =
           ''From:  '' @ effective_from example_client ?d @ [LF]
           @ ''Subject:  '' @ d_subject ?d @ [LF]
           @ (if d_to ?d \<noteq> [] then ''To:  '' @ join '', '' (d_to ?d) @ [LF] else [])
           @ (if d_cc ?d \<noteq> [] then ''Cc:  '' @ join '', '' (d_cc ?d) @ [LF] else [])
           @ concat (map (\<lambda>(k, v). Sprintln [k, '': '', v])
               (headers_range example_runtime (d_headers ?d)))
           @ [LF] @ d_body ?d"
    using ok by (rule document_order)
  then have "document example_runtime example_client ?d =
      ''From:  test\<newline>Subject:  Hi\<newline>To:  a@x.com\<newline>X-Test :  1\<newline>\<newline>Boom\<newline>.end''"
    by (simp add: example_runtime_def example_client_def example_message_def
        effective_from_def Sprintln_def LF_def)
  with ok show ?thesis
    by (intro conjI)
qed

section \<open>The identity\<close>

text \<open>
  C7: an identity is set only when the composition succeeded and \<^verbatim>\<open>smtp.SendMail\<close>
  was called and returned no error; it is then the decimal nanosecond timestamp, a
  hyphen, and the lowercase hexadecimal digest of the bytes hashed, and matches
  \<^verbatim>\<open>^\d+-[0-9a-f]{64}$\<close>. When the composition fails or the send fails, no identity
  is set and an error is returned; an identity is missing exactly when an error is
  returned. The clock is taken to be at or after the Unix epoch, and the digest to be
  32 bytes long.
\<close>

theorem identity_only_after_send:
  assumes "0 \<le> unix_nano rt" and "\<forall>bs. length (sha256_sum rt bs) = 32"
  shows "(rid (resourceMessageCreate rt client d) = Some i \<longrightarrow>
            id_pattern i
            \<and> diags (resourceMessageCreate rt client d) = None
            \<and> (\<exists>w call. compose rt client d = Inr w
                  \<and> sent (resourceMessageCreate rt client d) = Some call
                  \<and> send_mail_err rt call = None
                  \<and> i = format_d (unix_nano rt) @ ''-'' @
                          format_x (sha256_sum rt (sumWriter w))))
       \<and> ((\<exists>msg. compose rt client d = Inl msg) \<longrightarrow>
            rid (resourceMessageCreate rt client d) = None
            \<and> diags (resourceMessageCreate rt client d) \<noteq> None)
       \<and> ((\<exists>call err. sent (resourceMessageCreate rt client d) = Some call
                  \<and> send_mail_err rt call = Some err) \<longrightarrow>
            rid (resourceMessageCreate rt client d) = None
            \<and> diags (resourceMessageCreate rt client d) \<noteq> None)
       \<and> (rid (resourceMessageCreate rt client d) = None)
           = (diags (resourceMessageCreate rt client d) \<noteq> None)"
proof (cases "compose rt client d")
  case (Inl msg)
  then show ?thesis
    by (simp add: compose_Inl_no_effect)
next
  case (Inr w)
  from create_sent [OF Inr] obtain call
    where call: "sent (resourceMessageCreate rt client d) = Some call"
    by simp
  note r = create_rid [OF Inr call]
  note g = create_diags [OF Inr call]
  show ?thesis
  proof (cases "send_mail_err rt call")
    case None
    have "id_pattern (format_d (unix_nano rt) @ ''-'' @ format_x (sha256_sum rt (sumWriter w)))"
      using assms by (intro identity_matches_pattern) simp_all
    with None show ?thesis
      by (auto simp add: Inr call r g simp del: append.simps)
  next
    case (Some err)
    then show ?thesis
      by (simp add: Inr call r g)
  qed
qed

theorem identity_only_after_send_witness:
  "rid (resourceMessageCreate example_runtime example_client example_message)
     = Some (format_d 1700000000000000000 @ ''-'' @
             format_x (sha256_sum example_runtime
               (document example_runtime example_client example_message)))
   \<and> id_pattern (format_d 1700000000000000000 @ ''-'' @
             format_x (sha256_sum example_runtime
               (document example_runtime example_client example_message)))
   \<and> diags (resourceMessageCreate example_runtime example_client example_message) = None"
proof -
  let ?w = "\<lparr>sumWriter = document example_runtime example_client example_message,
             buffer = dot_encode (document example_runtime example_client example_message),
             dot = snd (dotWrite wstateBegin
                     (document example_runtime example_client example_message))\<rparr>"
  let ?i = "format_d 1700000000000000000 @ ''-'' @
             format_x (sha256_sum example_runtime
               (document example_runtime example_client example_message))"
  have ok: "compose example_runtime example_client example_message = Inr ?w"
    by (rule example_compose)
  from create_sent [OF ok] obtain call
    where call: "sent (resourceMessageCreate example_runtime example_client example_message)
                   = Some call"
    by simp
  have send: "send_mail_err example_runtime call = None"
    by (simp add: example_runtime_def)
  have clock: "unix_nano example_runtime = 1700000000000000000"
    by (simp add: example_runtime_def)
  have r: "rid (resourceMessageCreate example_runtime example_client example_message) = Some ?i"
    using create_rid [OF ok call] by (simp add: send clock)
  have h1: "0 \<le> unix_nano example_runtime"
    by (simp add: clock)
  note h2 = example_digest_length
  have "id_pattern ?i
        \<and> diags (resourceMessageCreate example_runtime example_client example_message) = None"
    using identity_only_after_send [OF h1 h2, THEN conjunct1, of example_client example_message ?i] r
    by blast
  with r show ?thesis
    by (intro conjI) blast+
qed

section \<open>The extra headers\<close>

lemma header_line_written:
  assumes "\<forall>kvs. mset (headers_range rt kvs) = mset kvs"
    and "(k, v) \<in> set (d_headers d)"
  shows "\<exists>before after. document rt client d = before @ k @ '' :  '' @ v @ [LF] @ after"
proof -
  have "mset (headers_range rt (d_headers d)) = mset (d_headers d)"
    using assms(1) by blast
  then have "set (headers_range rt (d_headers d)) = set (d_headers d)"
    by (rule mset_eq_setD)
  with assms(2) have "(k, v) \<in> set (headers_range rt (d_headers d))"
    by simp
  then obtain xs ys where "headers_range rt (d_headers d) = xs @ (k, v) # ys"
    by (blast dest: split_list)
  then have "document rt client d =
      (''From:  '' @ effective_from client d @ [LF]
       @ ''Subject:  '' @ d_subject d @ [LF]
       @ (if d_to d \<noteq> [] then ''To:  '' @ join '', '' (d_to d) @ [LF] else [])
       @ (if d_cc d \<noteq> [] then ''Cc:  '' @ join '', '' (d_cc d) @ [LF] else [])
       @ concat (map (\<lambda>(k, v). Sprintln [k, '': '', v]) xs))
      @ k @ '' :  '' @ v @ [LF]
      @ (concat (map (\<lambda>(k, v). Sprintln [k, '': '', v]) ys) @ [LF] @ d_body d)"
    by (simp add: document_unfold Sprintln_def)
  then show ?thesis by blast
qed

text \<open>
  C8, at a message with the extra header \<^verbatim>\<open>X-Mailer\<close> = \<^verbatim>\<open>tf\<close>: the lines of the
  bytes written. The header line is \<^verbatim>\<open>X-Mailer :  tf\<close>, with a space before the
  colon and two after it; no line is \<^verbatim>\<open>X-Mailer: tf\<close>.
\<close>

theorem extra_header_line_at_failing_input:
  "map_sum id (\<lambda>w. split_lines (sumWriter w))
     (compose example_runtime example_client
        (example_message\<lparr>d_headers := [(''X-Mailer'', ''tf'')]\<rparr>))
   = Inr [''From:  test'', ''Subject:  Hi'', ''To:  a@x.com'', ''Cc:  b@x.com'',
          ''X-Mailer :  tf'', '''', ''Boom'']"
proof -
  have "document example_runtime example_client
          (example_message\<lparr>d_headers := [(''X-Mailer'', ''tf'')]\<rparr>)
        = ''From:  test\<newline>Subject:  Hi\<newline>To:  a@x.com\<newline>Cc:  b@x.com\<newline>X-Mailer :  tf\<newline>\<newline>Boom''"
    by (simp add: document_unfold example_runtime_def example_client_def
        example_message_def effective_from_def Sprintln_def LF_def)
  then show ?thesis
    by (simp add: example_compose LF_def)
qed

section \<open>Errors of the composition\<close>

text \<open>
  C9: if any write of the composition fails (From, Subject, To, Cc, an extra header, the
  separator, the body, or the close of the dot writer), then
  \<^verbatim>\<open>resourceMessageCreate\<close> returns the diagnostic of the first write that failed,
  \<^verbatim>\<open>smtp.SendMail\<close> is not called and no identity is set.
\<close>

theorem composition_failure_aborts:
  assumes "s \<in> set (composition_writes rt d)" and "write_err rt s \<noteq> None"
  shows "\<exists>before s' after err.
           composition_writes rt d = before @ s' # after
           \<and> list_all (write_ok rt) before
           \<and> write_err rt s' = Some err
           \<and> resourceMessageCreate rt client d =
               \<lparr>diags = Some (failure_prefix s' @ err), sent = None, rid = None\<rparr>"
proof -
  from assms have "\<not> list_all (write_ok rt) (composition_writes rt d)"
    by (auto simp: list_all_iff write_ok_def)
  then obtain before s' after err
    where steps: "composition_writes rt d = before @ s' # after"
      and before: "list_all (write_ok rt) before"
      and err: "write_err rt s' = Some err"
    using first_failing_write by blast
  then have "compose rt client d = Inl (failure_prefix s' @ err)"
    by (rule compose_first_failure)
  then have "resourceMessageCreate rt client d =
               \<lparr>diags = Some (failure_prefix s' @ err), sent = None, rid = None\<rparr>"
    by (rule compose_Inl_no_effect)
  with steps before err show ?thesis by blast
qed

theorem composition_failure_aborts_witness:
  "resourceMessageCreate
     (example_runtime\<lparr>write_err := (write_err example_runtime)(WBody := Some ''short write'')\<rparr>)
     example_client example_message
   = \<lparr>diags = Some ''failed to write the body: short write'', sent = None, rid = None\<rparr>"
proof -
  let ?rt = "example_runtime\<lparr>write_err :=
               (write_err example_runtime)(WBody := Some ''short write'')\<rparr>"
  have fails: "write_err ?rt s = Some err \<longleftrightarrow> s = WBody \<and> err = ''short write''" for s err
    by (auto simp: example_runtime_def)
  have h1: "WBody \<in> set (composition_writes ?rt example_message)"
    by (simp add: composition_writes_def)
  have h2: "write_err ?rt WBody \<noteq> None"
    by simp
  from composition_failure_aborts [OF h1 h2, of example_client]
  obtain s' err where e: "write_err ?rt s' = Some err"
    and r: "resourceMessageCreate ?rt example_client example_message =
              \<lparr>diags = Some (failure_prefix s' @ err), sent = None, rid = None\<rparr>"
    by blast
  from e have "s' = WBody \<and> err = ''short write''"
    by (simp only: fails)
  with r show ?thesis by simp
qed

end
